theory Spec2Isabelle
  imports Complex_Main "HOL-Library.Sublist"
begin

section \<open>The Picard module of MultiQC: data model\<close>

text \<open>
  The module \<^verbatim>\<open>multiqc/picard/__init__.py\<close> reads Picard MarkDuplicates logs into the
  dictionary \<^verbatim>\<open>self.picard_dupMetrics_data\<close> (sample name to a dictionary of metrics),
  writes one column of the general statistics table and adds three derived counts per
  sample before plotting.

  A metric value is what line 83 or line 85 stores: the result of \<^verbatim>\<open>float(...)\<close> or the
  raw token. The type of Python floats is the parameter \<open>'n\<close>; its subtraction and
  multiplication are the operations of that type, so every theorem below holds for any
  arithmetic the number type has. Examples are evaluated at type \<open>rat\<close>; where they
  compute, they do so on values that a binary float represents exactly.
\<close>

datatype 'n pyval = Num 'n | Str string

type_synonym 'n metrics = "string \<rightharpoonup> 'n pyval"

type_synonym 'n samples = "string \<rightharpoonup> 'n metrics"

text \<open>The exceptions the module can raise.\<close>

datatype error = KeyError | IndexError | ValueError | TypeError | StopIteration | UserWarning

text \<open>The messages sent to the logger, with the value formatted into each.\<close>

datatype diagnostic =
    Duplicate_sample_name string
  | Could_not_find_any_reports
  | Found_reports nat

text \<open>
  The mutable state the module works on: its own dictionary, the rows of
  \<^verbatim>\<open>config.general_stats\<close> and the messages logged so far.
\<close>

record 'n state =
  picard_dupMetrics_data :: "'n samples"
  general_stats_headers :: "string \<rightharpoonup> string"
  general_stats_rows :: "string \<rightharpoonup> (string \<rightharpoonup> string)"
  log_messages :: "diagnostic list"

text \<open>
  A statement either completes with a new state or raises an exception; the dictionaries
  are mutated in place, so the state reached when the exception is raised is kept.
\<close>

datatype 's result = Done 's | Raised error 's

fun state_of :: "'s result \<Rightarrow> 's" where
  "state_of (Done s) = s"
| "state_of (Raised e s) = s"

fun error_of :: "'s result \<Rightarrow> error option" where
  "error_of (Done s) = None"
| "error_of (Raised e s) = Some e"

text \<open>Sequencing of two statements: the second runs only when the first completes.\<close>

fun and_then :: "'s result \<Rightarrow> ('s \<Rightarrow> 's result) \<Rightarrow> 's result" where
  "and_then (Done s) k = k s"
| "and_then (Raised e s) k = Raised e s"


section \<open>The derived fields (\<^verbatim>\<open>mark_duplicates_plot\<close>, lines 103 to 106)\<close>

text \<open>\<^verbatim>\<open>d[k]\<close> on a dictionary: a missing key raises \<^verbatim>\<open>KeyError\<close>.\<close>

definition getitem :: "('k \<rightharpoonup> 'v) \<Rightarrow> 'k \<Rightarrow> error + 'v" where
  "getitem d k = (case d k of None \<Rightarrow> Inl KeyError | Some v \<Rightarrow> Inr v)"

text \<open>
  \<^verbatim>\<open>a - b\<close> on two stored values. Two floats are subtracted; a string operand raises
  \<^verbatim>\<open>TypeError\<close>.
\<close>

fun py_sub :: "('n::minus) pyval \<Rightarrow> 'n pyval \<Rightarrow> error + 'n pyval" where
  "py_sub (Num a) (Num b) = Inr (Num (a - b))"
| "py_sub _ _ = Inl TypeError"

text \<open>
  One assignment \<^verbatim>\<open>data[sn][tgt] = data[sn][a] - data[sn][b]\<close>. Python evaluates the
  right-hand side first, left to right (both lookups, then the subtraction), and only
  then looks up \<^verbatim>\<open>data[sn]\<close> again to store the result.
\<close>

definition assign_difference ::
  "string \<Rightarrow> string \<Rightarrow> string \<Rightarrow> string \<Rightarrow> ('n::minus) state \<Rightarrow> 'n state result" where
  "assign_difference sn tgt a b st =
     (case getitem (picard_dupMetrics_data st) sn of
        Inl e \<Rightarrow> Raised e st
      | Inr m \<Rightarrow>
     (case getitem m a of
        Inl e \<Rightarrow> Raised e st
      | Inr x \<Rightarrow>
     (case getitem m b of
        Inl e \<Rightarrow> Raised e st
      | Inr y \<Rightarrow>
     (case py_sub x y of
        Inl e \<Rightarrow> Raised e st
      | Inr v \<Rightarrow>
          Done (st\<lparr>picard_dupMetrics_data := (picard_dupMetrics_data st)(sn \<mapsto> m(tgt \<mapsto> v))\<rparr>)))))"

text \<open>The body of the loop at line 103: the three assignments of lines 104, 105, 106.\<close>

definition derive_sample :: "string \<Rightarrow> ('n::minus) state \<Rightarrow> 'n state result" where
  "derive_sample sn st =
     and_then (assign_difference sn ''UNPAIRED_READ_UNIQUE''
                 ''UNPAIRED_READS_EXAMINED'' ''UNPAIRED_READ_DUPLICATES'' st)
       (\<lambda>st1. and_then (assign_difference sn ''READ_PAIR_NOT_OPTICAL_DUPLICATES''
                 ''READ_PAIR_DUPLICATES'' ''READ_PAIR_OPTICAL_DUPLICATES'' st1)
       (\<lambda>st2. assign_difference sn ''READ_PAIR_UNIQUE''
                 ''READ_PAIRS_EXAMINED'' ''READ_PAIR_DUPLICATES'' st2))"


text \<open>The five source fields the derivation reads, in the order of their first lookup.\<close>

definition source_fields :: "string list" where
  "source_fields = [''UNPAIRED_READS_EXAMINED'', ''UNPAIRED_READ_DUPLICATES'',
     ''READ_PAIR_DUPLICATES'', ''READ_PAIR_OPTICAL_DUPLICATES'', ''READ_PAIRS_EXAMINED'']"

text \<open>A state holding one sample, for the examples.\<close>

definition one_sample :: "string \<Rightarrow> 'n metrics \<Rightarrow> 'n state" where
  "one_sample sn m =
     \<lparr>picard_dupMetrics_data = [sn \<mapsto> m], general_stats_headers = Map.empty,
      general_stats_rows = Map.empty, log_messages = []\<rparr>"


section \<open>The general statistics column (\<^verbatim>\<open>picard_stats_table\<close>, lines 93 to 95)\<close>










section \<open>Reading a log (\<^verbatim>\<open>parse_picard_dupMetrics\<close>, lines 60 to 86)\<close>

text \<open>\<^verbatim>\<open>sub in s\<close> on strings.\<close>

fun contains :: "string \<Rightarrow> string \<Rightarrow> bool" where
  "contains sub [] = (sub = [])"
| "contains sub (c # cs) = (prefix sub (c # cs) \<or> contains sub cs)"

text \<open>\<^verbatim>\<open>s.split(sep)\<close> with a separator of one character: the empty string gives one empty token.\<close>

fun split_on :: "char \<Rightarrow> string \<Rightarrow> string list" where
  "split_on sep [] = [[]]"
| "split_on sep (c # cs) =
     (let r = split_on sep cs in if c = sep then [] # r else (c # hd r) # tl r)"

definition split_tab :: "string \<Rightarrow> string list" where
  "split_tab l = split_on (CHR 0x09) l"

text \<open>\<^verbatim>\<open>os.path.basename\<close> on POSIX paths: what follows the last slash.\<close>

definition basename :: "string \<Rightarrow> string" where
  "basename p = rev (takeWhile (\<lambda>c. c \<noteq> CHR ''/'') (rev p))"

text \<open>
  The regular expression \<^verbatim>\<open>INPUT=\[([^\]]+)\]\<close> matched at the start of a string: the
  literal \<^verbatim>\<open>INPUT=[\<close>, then the longest run of characters other than \<^verbatim>\<open>]\<close>, which
  must not be empty and must be followed by \<^verbatim>\<open>]\<close>. The value is group 1.
\<close>

definition match_here :: "string \<Rightarrow> string option" where
  "match_here l =
     (if prefix ''INPUT=['' l then
        (let r = drop 7 l; g = takeWhile (\<lambda>c. c \<noteq> CHR '']'') r
         in if g \<noteq> [] \<and> dropWhile (\<lambda>c. c \<noteq> CHR '']'') r \<noteq> [] then Some g else None)
      else None)"

text \<open>\<^verbatim>\<open>re.search\<close>: the leftmost position at which the expression matches.\<close>

fun fn_search :: "string \<Rightarrow> string option" where
  "fn_search [] = None"
| "fn_search (c # cs) = (case match_here (c # cs) of Some g \<Rightarrow> Some g | None \<Rightarrow> fn_search cs)"

text \<open>The tests of lines 65 and 78.\<close>

definition is_record_marker :: "string \<Rightarrow> bool" where
  "is_record_marker l \<longleftrightarrow> contains ''picard.sam.MarkDuplicates'' l \<and> contains ''INPUT'' l"

definition is_metrics_header :: "string \<Rightarrow> bool" where
  "is_metrics_header l \<longleftrightarrow>
     contains ''picard.sam.DuplicationMetrics'' l \<and> contains ''## METRICS CLASS'' l"

text \<open>\<^verbatim>\<open>xs[i]\<close> on a list with \<open>i \<ge> 0\<close>: out of range raises \<^verbatim>\<open>IndexError\<close>.\<close>

definition list_index :: "'a list \<Rightarrow> nat \<Rightarrow> error + 'a" where
  "list_index xs i = (if i < length xs then Inr (xs ! i) else Inl IndexError)"

text \<open>\<^verbatim>\<open>self.picard_dupMetrics_data[s][k] = v\<close>.\<close>

definition setitem_sample :: "string \<Rightarrow> string \<Rightarrow> 'n pyval \<Rightarrow> 'n state \<Rightarrow> 'n state result" where
  "setitem_sample s k v st =
     (case getitem (picard_dupMetrics_data st) s of
        Inl e \<Rightarrow> Raised e st
      | Inr m \<Rightarrow> Done (st\<lparr>picard_dupMetrics_data := (picard_dupMetrics_data st)(s \<mapsto> m(k \<mapsto> v))\<rparr>))"

text \<open>
  Lines 82 to 85. The parameter \<open>pyfloat\<close> is Python's \<^verbatim>\<open>float\<close> on strings, with
  \<open>None\<close> for the \<^verbatim>\<open>ValueError\<close> it raises on a string that is no number. Only that
  exception is caught: the \<^verbatim>\<open>IndexError\<close> of \<^verbatim>\<open>vals[i]\<close> leaves the \<^verbatim>\<open>try\<close>.
\<close>

definition store_value ::
  "(string \<Rightarrow> 'n option) \<Rightarrow> string \<Rightarrow> string \<Rightarrow> string list \<Rightarrow> nat \<Rightarrow> 'n state \<Rightarrow> 'n state result" where
  "store_value pyfloat s k vals i st =
     (case list_index vals i of
        Inl e \<Rightarrow> Raised e st
      | Inr tok \<Rightarrow>
          (case pyfloat tok of
             Some x \<Rightarrow> setitem_sample s k (Num x) st
           | None \<Rightarrow>
               (case list_index vals i of
                  Inl e \<Rightarrow> Raised e st
                | Inr tok' \<Rightarrow> setitem_sample s k (Str tok') st)))"

text \<open>The loop of line 81 over \<^verbatim>\<open>enumerate(keys)\<close>.\<close>

fun fill ::
  "(string \<Rightarrow> 'n option) \<Rightarrow> string \<Rightarrow> (nat \<times> string) list \<Rightarrow> string list \<Rightarrow> 'n state \<Rightarrow> 'n state result" where
  "fill pyfloat s [] vals st = Done st"
| "fill pyfloat s (ik # iks) vals st =
     and_then (store_value pyfloat s (snd ik) vals (fst ik) st) (fill pyfloat s iks vals)"

text \<open>
  Lines 65 to 75: what a line does to the pending sample name and to the dictionary.
  The parameter \<open>clean\<close> is \<^verbatim>\<open>self.clean_s_name\<close>, a method of the base class, which is
  not part of this module.
\<close>

definition new_log ::
  "(string \<Rightarrow> string \<Rightarrow> string) \<Rightarrow> string \<Rightarrow> string \<Rightarrow> string option \<Rightarrow> 'n state \<Rightarrow>
     string option \<times> 'n state" where
  "new_log clean froot l s_name st =
     (if is_record_marker l then
        (case fn_search l of
           None \<Rightarrow> (None, st)
         | Some g \<Rightarrow>
             (let s = clean (basename g) froot
              in (Some s,
                  st\<lparr>picard_dupMetrics_data := (picard_dupMetrics_data st)(s \<mapsto> Map.empty),
                     log_messages := log_messages st @
                       (if s \<in> dom (picard_dupMetrics_data st)
                        then [Duplicate_sample_name s] else [])\<rparr>)))
      else (s_name, st))"

text \<open>
  The loop of line 63 over the lines still to be read. The two calls of \<^verbatim>\<open>next()\<close> at
  lines 79 and 80 take the following two lines from the same iterator and raise
  \<^verbatim>\<open>StopIteration\<close> when it is exhausted; raised in the body of the loop, it leaves the
  function.
\<close>

fun parse_lines ::
  "(string \<Rightarrow> 'n option) \<Rightarrow> (string \<Rightarrow> string \<Rightarrow> string) \<Rightarrow> string \<Rightarrow> string option \<Rightarrow>
     string list \<Rightarrow> 'n state \<Rightarrow> 'n state result" where
  "parse_lines pyfloat clean froot s_name [] st = Done st"
| "parse_lines pyfloat clean froot s_name (l # rest) st =
     (case fst (new_log clean froot l s_name st) of
        None \<Rightarrow> parse_lines pyfloat clean froot None rest (snd (new_log clean froot l s_name st))
      | Some s \<Rightarrow>
          (if is_metrics_header l then
             (case rest of
                keys # vals # rest' \<Rightarrow>
                  and_then
                    (fill pyfloat s (enumerate 0 (split_tab keys)) (split_tab vals)
                       (snd (new_log clean froot l s_name st)))
                    (parse_lines pyfloat clean froot None rest')
              | _ \<Rightarrow> Raised StopIteration (snd (new_log clean froot l s_name st)))
           else parse_lines pyfloat clean froot (Some s) rest
                  (snd (new_log clean froot l s_name st))))"

text \<open>A log file as \<^verbatim>\<open>find_log_files\<close> hands it over: its root and its lines.\<close>

type_synonym logfile = "string \<times> string list"

definition parse_picard_dupMetrics ::
  "(string \<Rightarrow> 'n option) \<Rightarrow> (string \<Rightarrow> string \<Rightarrow> string) \<Rightarrow> logfile \<Rightarrow> 'n state \<Rightarrow> 'n state result" where
  "parse_picard_dupMetrics pyfloat clean f st = parse_lines pyfloat clean (fst f) None (snd f) st"


section \<open>The constructor (\<^verbatim>\<open>__init__\<close>, lines 33 to 57)\<close>




section \<open>What the specification compares the result with\<close>

text \<open>
  The coerced value of a token, in the words of the specification: the float when the
  token parses as one, the token itself otherwise.
\<close>

definition coerced :: "(string \<Rightarrow> 'n option) \<Rightarrow> string \<Rightarrow> 'n pyval" where
  "coerced pyfloat tok = (case pyfloat tok of Some x \<Rightarrow> Num x | None \<Rightarrow> Str tok)"

text \<open>
  The positional zip of header tokens and values as a dictionary: the pairs are entered
  from left to right, so the last of two equal header tokens keeps its value, and tokens
  beyond the shorter list have no pair.
\<close>

definition positional_zip :: "string list \<Rightarrow> 'v list \<Rightarrow> (string \<rightharpoonup> 'v)" where
  "positional_zip hs vs = Map.empty(hs [\<mapsto>] vs)"

text \<open>
  A record whose lines are each of one kind: a record-marker line with a matching
  \<^verbatim>\<open>INPUT=[...]\<close> that is not itself a metrics-class line, then a metrics-class line
  that is not itself a record-marker line. The header row and the value row follow.
\<close>

definition record_start :: "string \<Rightarrow> string \<Rightarrow> bool" where
  "record_start l1 l2 \<longleftrightarrow>
     is_record_marker l1 \<and> fn_search l1 \<noteq> None \<and> \<not> is_metrics_header l1 \<and>
     is_metrics_header l2 \<and> \<not> is_record_marker l2"

text \<open>The sample name line 72 gives a record-marker line of a file with the given root.\<close>

definition sample_name :: "(string \<Rightarrow> string \<Rightarrow> string) \<Rightarrow> string \<Rightarrow> string \<Rightarrow> string" where
  "sample_name clean froot l = clean (basename (the (fn_search l))) froot"


section \<open>Instances of the parameters, for the examples\<close>

text \<open>A sanitizer that leaves the name as it is.\<close>

definition keep_name :: "string \<Rightarrow> string \<Rightarrow> string" where
  "keep_name n froot = n"

text \<open>
  A float parser on rationals that reads plain decimal literals (optional sign, digits,
  optional fraction, surrounded by white space) and rejects every other string. Python's
  \<^verbatim>\<open>float\<close> reads these literals as the same numbers, and the examples use no other
  numeric text.
\<close>

definition is_space :: "char \<Rightarrow> bool" where
  "is_space c \<longleftrightarrow> c \<in> set [CHR '' '', CHR 0x09, CHR 0x0A, CHR 0x0B, CHR 0x0C, CHR 0x0D]"

definition strip :: "string \<Rightarrow> string" where
  "strip s = rev (dropWhile is_space (rev (dropWhile is_space s)))"

definition digit_value :: "char \<Rightarrow> nat option" where
  "digit_value c = map_of (zip ''0123456789'' [0, 1, 2, 3, 4, 5, 6, 7, 8, 9]) c"

fun digits_value :: "nat \<Rightarrow> string \<Rightarrow> nat option" where
  "digits_value acc [] = Some acc"
| "digits_value acc (c # cs) =
     (case digit_value c of None \<Rightarrow> None | Some d \<Rightarrow> digits_value (10 * acc + d) cs)"

definition unsigned_decimal :: "string \<Rightarrow> rat option" where
  "unsigned_decimal s =
     (case split_on (CHR ''.'') s of
        [ip] \<Rightarrow> if ip = [] then None else map_option of_nat (digits_value 0 ip)
      | [ip, fp] \<Rightarrow>
          if ip = [] \<and> fp = [] then None
          else (case (digits_value 0 ip, digits_value 0 fp) of
                  (Some a, Some b) \<Rightarrow> Some (of_nat a + of_nat b / 10 ^ length fp)
                | _ \<Rightarrow> None)
      | _ \<Rightarrow> None)"

definition decimal_float :: "string \<Rightarrow> rat option" where
  "decimal_float s =
     (case strip s of
        [] \<Rightarrow> None
      | c # r \<Rightarrow>
          if c = CHR ''-'' then map_option uminus (unsigned_decimal r)
          else if c = CHR ''+'' then unsigned_decimal r
          else unsigned_decimal (c # r))"




text \<open>The state before the constructor runs: nothing read, nothing logged.\<close>

definition fresh :: "'n state" where
  "fresh = \<lparr>picard_dupMetrics_data = Map.empty, general_stats_headers = Map.empty,
     general_stats_rows = Map.empty, log_messages = []\<rparr>"


section \<open>Properties of the derived fields\<close>




section \<open>Properties of the reader\<close>

lemma fill_enough:
  assumes "picard_dupMetrics_data st s = Some m" and "n + length ks \<le> length vals"
  shows "fill pyfloat s (enumerate n ks) vals st =
    Done (st\<lparr>picard_dupMetrics_data := (picard_dupMetrics_data st)
      (s \<mapsto> m(ks [\<mapsto>] map (coerced pyfloat) (drop n vals)))\<rparr>)"
  using assms
proof (induction ks arbitrary: n m st)
  case Nil
  then have "(picard_dupMetrics_data st)(s \<mapsto> m) = picard_dupMetrics_data st"
    by (simp add: map_upd_triv)
  then show ?case by simp
next
  case (Cons k ks)
  from Cons.prems have n: "n < length vals" by simp
  let ?v = "coerced pyfloat (vals ! n)"
  let ?st = "st\<lparr>picard_dupMetrics_data := (picard_dupMetrics_data st)(s \<mapsto> m(k \<mapsto> ?v))\<rparr>"
  have step: "store_value pyfloat s k vals n st = Done ?st"
    using Cons.prems(1) n
    by (simp add: store_value_def list_index_def setitem_sample_def getitem_def coerced_def
        split: option.splits)
  have "picard_dupMetrics_data ?st s = Some (m(k \<mapsto> ?v))"
    by simp
  moreover have "Suc n + length ks \<le> length vals"
    using Cons.prems(2) by simp
  ultimately have "fill pyfloat s (enumerate (Suc n) ks) vals ?st =
    Done (?st\<lparr>picard_dupMetrics_data := (picard_dupMetrics_data ?st)
      (s \<mapsto> (m(k \<mapsto> ?v))(ks [\<mapsto>] map (coerced pyfloat) (drop (Suc n) vals)))\<rparr>)"
    by (rule Cons.IH)
  moreover have "drop n vals = vals ! n # drop (Suc n) vals"
    using n by (simp add: Cons_nth_drop_Suc)
  ultimately show ?case
    by (simp add: step del: fun_upd_apply)
qed

lemma fill_short:
  assumes "s \<in> dom (picard_dupMetrics_data st)" and "n \<le> length vals"
    and "length vals < n + length ks"
  shows "\<exists>st'. fill pyfloat s (enumerate n ks) vals st = Raised IndexError st'"
  using assms
proof (induction ks arbitrary: n st)
  case Nil
  then show ?case by simp
next
  case (Cons k ks)
  show ?case
  proof (cases "n < length vals")
    case False
    then show ?thesis
      by (simp add: store_value_def list_index_def)
  next
    case True
    from Cons.prems(1) obtain m where m: "picard_dupMetrics_data st s = Some m" by auto
    let ?st = "st\<lparr>picard_dupMetrics_data := (picard_dupMetrics_data st)
      (s \<mapsto> m(k \<mapsto> coerced pyfloat (vals ! n)))\<rparr>"
    have step: "store_value pyfloat s k vals n st = Done ?st"
      using m True
      by (simp add: store_value_def list_index_def setitem_sample_def getitem_def coerced_def
          split: option.splits)
    have "s \<in> dom (picard_dupMetrics_data ?st)"
      by simp
    moreover have "Suc n \<le> length vals" and "length vals < Suc n + length ks"
      using True Cons.prems(3) by simp_all
    ultimately have "\<exists>st'. fill pyfloat s (enumerate (Suc n) ks) vals ?st = Raised IndexError st'"
      by (rule Cons.IH)
    then show ?thesis
      by (simp add: step)
  qed
qed

lemma new_log_marker:
  assumes "is_record_marker l" and "fn_search l = Some g"
  shows "new_log clean froot l s_name st =
    (Some (clean (basename g) froot),
     st\<lparr>picard_dupMetrics_data := (picard_dupMetrics_data st)(clean (basename g) froot \<mapsto> Map.empty),
        log_messages := log_messages st @
          (if clean (basename g) froot \<in> dom (picard_dupMetrics_data st)
           then [Duplicate_sample_name (clean (basename g) froot)] else [])\<rparr>)"
  using assms by (simp add: new_log_def Let_def)

lemma new_log_other: "\<not> is_record_marker l \<Longrightarrow> new_log clean froot l s_name st = (s_name, st)"
  by (simp add: new_log_def)

lemma new_log_unmatched:
  "is_record_marker l \<Longrightarrow> fn_search l = None \<Longrightarrow> new_log clean froot l s_name st = (None, st)"
  by (simp add: new_log_def)

lemma parse_lines_block:
  assumes "is_metrics_header l2" and "\<not> is_record_marker l2"
    and "picard_dupMetrics_data st s = Some m"
    and "length (split_tab h) \<le> length (split_tab v)"
  shows "parse_lines pyfloat clean froot (Some s) (l2 # h # v # rest) st =
    parse_lines pyfloat clean froot None rest
      (st\<lparr>picard_dupMetrics_data := (picard_dupMetrics_data st)
        (s \<mapsto> m(split_tab h [\<mapsto>] map (coerced pyfloat) (split_tab v)))\<rparr>)"
proof -
  have "fill pyfloat s (enumerate 0 (split_tab h)) (split_tab v) st =
    Done (st\<lparr>picard_dupMetrics_data := (picard_dupMetrics_data st)
      (s \<mapsto> m(split_tab h [\<mapsto>] map (coerced pyfloat) (drop 0 (split_tab v))))\<rparr>)"
    using assms(3,4) by (intro fill_enough) simp_all
  then show ?thesis
    using assms(1,2) by (simp add: new_log_other)
qed

lemma parse_lines_record:
  assumes "record_start l1 l2" and "length (split_tab h) \<le> length (split_tab v)"
  shows "parse_lines pyfloat clean froot s_name (l1 # l2 # h # v # rest) st =
    parse_lines pyfloat clean froot None rest
      (st\<lparr>picard_dupMetrics_data := (picard_dupMetrics_data st)
          (sample_name clean froot l1 \<mapsto>
             positional_zip (split_tab h) (map (coerced pyfloat) (split_tab v))),
         log_messages := log_messages st @
          (if sample_name clean froot l1 \<in> dom (picard_dupMetrics_data st)
           then [Duplicate_sample_name (sample_name clean froot l1)] else [])\<rparr>)"
proof -
  from assms(1) obtain g where g: "fn_search l1 = Some g"
    and l1: "is_record_marker l1" "\<not> is_metrics_header l1"
    and l2: "is_metrics_header l2" "\<not> is_record_marker l2"
    by (auto simp: record_start_def)
  let ?s = "sample_name clean froot l1"
  let ?st1 = "st\<lparr>picard_dupMetrics_data := (picard_dupMetrics_data st)(?s \<mapsto> Map.empty),
        log_messages := log_messages st @
          (if ?s \<in> dom (picard_dupMetrics_data st) then [Duplicate_sample_name ?s] else [])\<rparr>"
  have s: "?s = clean (basename g) froot"
    by (simp add: sample_name_def g)
  have "new_log clean froot l1 s_name st = (Some ?s, ?st1)"
    unfolding s using l1(1) g by (rule new_log_marker)
  then have "parse_lines pyfloat clean froot s_name (l1 # l2 # h # v # rest) st =
    parse_lines pyfloat clean froot (Some ?s) (l2 # h # v # rest) ?st1"
    using l1(2) by simp
  also have "\<dots> = parse_lines pyfloat clean froot None rest
      (?st1\<lparr>picard_dupMetrics_data := (picard_dupMetrics_data ?st1)
        (?s \<mapsto> Map.empty(split_tab h [\<mapsto>] map (coerced pyfloat) (split_tab v)))\<rparr>)"
    using l2 _ assms(2) by (rule parse_lines_block) simp
  also have "?st1\<lparr>picard_dupMetrics_data := (picard_dupMetrics_data ?st1)
        (?s \<mapsto> Map.empty(split_tab h [\<mapsto>] map (coerced pyfloat) (split_tab v)))\<rparr> =
      st\<lparr>picard_dupMetrics_data := (picard_dupMetrics_data st)
          (?s \<mapsto> positional_zip (split_tab h) (map (coerced pyfloat) (split_tab v))),
         log_messages := log_messages st @
          (if ?s \<in> dom (picard_dupMetrics_data st) then [Duplicate_sample_name ?s] else [])\<rparr>"
    by (rule state.equality) (simp_all add: positional_zip_def del: fun_upd_apply)
  finally show ?thesis .
qed



lemma store_value_dom:
  "dom (picard_dupMetrics_data (state_of (store_value pyfloat s k vals i st))) =
   dom (picard_dupMetrics_data st)"
  by (auto simp: store_value_def list_index_def setitem_sample_def getitem_def
      split: option.splits)

lemma store_value_frame:
  "t \<noteq> s \<Longrightarrow> picard_dupMetrics_data (state_of (store_value pyfloat s k vals i st)) t =
   picard_dupMetrics_data st t"
  by (auto simp: store_value_def list_index_def setitem_sample_def getitem_def
      split: option.splits)


lemma fill_dom:
  "dom (picard_dupMetrics_data (state_of (fill pyfloat s iks vals st))) =
   dom (picard_dupMetrics_data st)"
proof (induction iks arbitrary: st)
  case Nil
  show ?case by simp
next
  case (Cons ik iks)
  show ?case
  proof (cases "store_value pyfloat s (snd ik) vals (fst ik) st")
    case (Done st1)
    with store_value_dom [of pyfloat s "snd ik" vals "fst ik" st] Cons.IH [of st1]
    show ?thesis by simp
  next
    case (Raised e st1)
    with store_value_dom [of pyfloat s "snd ik" vals "fst ik" st]
    show ?thesis by simp
  qed
qed

lemma fill_frame:
  "t \<noteq> s \<Longrightarrow> picard_dupMetrics_data (state_of (fill pyfloat s iks vals st)) t =
   picard_dupMetrics_data st t"
proof (induction iks arbitrary: st)
  case Nil
  show ?case by simp
next
  case (Cons ik iks)
  show ?case
  proof (cases "store_value pyfloat s (snd ik) vals (fst ik) st")
    case (Done st1)
    with store_value_frame [OF Cons.prems, of pyfloat "snd ik" vals "fst ik" st]
      Cons.IH [OF Cons.prems, of st1]
    show ?thesis by simp
  next
    case (Raised e st1)
    with store_value_frame [OF Cons.prems, of pyfloat "snd ik" vals "fst ik" st]
    show ?thesis by simp
  qed
qed


lemma parse_lines_rule:
  assumes start: "I s_name st"
    and new: "\<forall>l \<in> set lines. \<forall>s_name st. I s_name st \<longrightarrow>
      I (fst (new_log clean froot l s_name st)) (snd (new_log clean froot l s_name st))"
    and fill_done: "\<And>s st h v st'. I (Some s) st \<Longrightarrow>
      fill pyfloat s (enumerate 0 (split_tab h)) (split_tab v) st = Done st' \<Longrightarrow> I None st'"
    and fill_raised: "\<And>s st h v e st'. I (Some s) st \<Longrightarrow>
      fill pyfloat s (enumerate 0 (split_tab h)) (split_tab v) st = Raised e st' \<Longrightarrow>
      Q (Raised e st')"
    and stop: "\<And>s st. I (Some s) st \<Longrightarrow> Q (Raised StopIteration st)"
    and finish: "\<And>s_name st. I s_name st \<Longrightarrow> Q (Done st)"
  shows "Q (parse_lines pyfloat clean froot s_name lines st)"
  using start new
proof (induction "length lines" arbitrary: lines s_name st rule: less_induct)
  case less
  show ?case
  proof (cases lines)
    case Nil
    with less.prems(1) finish show ?thesis by simp
  next
    case (Cons l rest)
    let ?s1 = "fst (new_log clean froot l s_name st)"
    let ?st1 = "snd (new_log clean froot l s_name st)"
    from less.prems Cons have I1: "I ?s1 ?st1" by simp
    from less.prems(2) Cons have new_rest: "\<forall>l \<in> set rest. \<forall>s_name st. I s_name st \<longrightarrow>
      I (fst (new_log clean froot l s_name st)) (snd (new_log clean froot l s_name st))"
      by simp
    show ?thesis
    proof (cases ?s1)
      case None
      have "Q (parse_lines pyfloat clean froot None rest ?st1)"
        using Cons I1 None new_rest by (intro less.hyps) simp_all
      with Cons None show ?thesis by simp
    next
      case (Some s)
      with I1 have I1': "I (Some s) ?st1" by simp
      show ?thesis
      proof (cases "is_metrics_header l")
        case False
        have "Q (parse_lines pyfloat clean froot (Some s) rest ?st1)"
          using Cons I1' new_rest by (intro less.hyps) simp_all
        with Cons Some False show ?thesis by simp
      next
        case True
        show ?thesis
        proof (cases "\<exists>h v rest'. rest = h # v # rest'")
          case False
          then have "parse_lines pyfloat clean froot s_name lines st = Raised StopIteration ?st1"
            using Cons Some True by (auto split: list.splits)
          with stop [OF I1'] show ?thesis by simp
        next
          case True
          then obtain h v rest' where rest: "rest = h # v # rest'" by blast
          show ?thesis
          proof (cases "fill pyfloat s (enumerate 0 (split_tab h)) (split_tab v) ?st1")
            case (Raised e st')
            with Cons Some \<open>is_metrics_header l\<close> rest fill_raised [OF I1' Raised]
            show ?thesis by simp
          next
            case (Done st')
            from fill_done [OF I1' Done] have "I None st'" .
            moreover from new_rest rest have "\<forall>l \<in> set rest'. \<forall>s_name st. I s_name st \<longrightarrow>
              I (fst (new_log clean froot l s_name st)) (snd (new_log clean froot l s_name st))"
              by simp
            moreover have "length rest' < length lines"
              using Cons rest by simp
            ultimately have "Q (parse_lines pyfloat clean froot None rest' st')"
              by (intro less.hyps)
            with Cons Some \<open>is_metrics_header l\<close> rest Done show ?thesis by simp
          qed
        qed
      qed
    qed
  qed
qed

lemma new_log_dom:
  "dom (picard_dupMetrics_data st) \<subseteq>
   dom (picard_dupMetrics_data (snd (new_log clean froot l s_name st)))"
  by (auto simp: new_log_def Let_def split: option.splits)


lemma new_log_frame:
  assumes "is_record_marker l \<longrightarrow> fn_search l \<noteq> None \<longrightarrow> sample_name clean froot l \<noteq> t"
  shows "picard_dupMetrics_data (snd (new_log clean froot l s_name st)) t =
      picard_dupMetrics_data st t"
    and "s_name \<noteq> Some t \<Longrightarrow> fst (new_log clean froot l s_name st) \<noteq> Some t"
  using assms by (auto simp: new_log_def Let_def sample_name_def split: option.splits if_splits)

lemma fill_dom_Done:
  "fill pyfloat s iks vals st = Done st' \<Longrightarrow>
   dom (picard_dupMetrics_data st') = dom (picard_dupMetrics_data st)"
  using fill_dom [of pyfloat s iks vals st] by simp

lemma fill_dom_Raised:
  "fill pyfloat s iks vals st = Raised e st' \<Longrightarrow>
   dom (picard_dupMetrics_data st') = dom (picard_dupMetrics_data st)"
  using fill_dom [of pyfloat s iks vals st] by simp

lemma fill_frame_Done:
  "fill pyfloat s iks vals st = Done st' \<Longrightarrow> t \<noteq> s \<Longrightarrow>
   picard_dupMetrics_data st' t = picard_dupMetrics_data st t"
  using fill_frame [of t s pyfloat iks vals st] by simp

lemma fill_frame_Raised:
  "fill pyfloat s iks vals st = Raised e st' \<Longrightarrow> t \<noteq> s \<Longrightarrow>
   picard_dupMetrics_data st' t = picard_dupMetrics_data st t"
  using fill_frame [of t s pyfloat iks vals st] by simp


lemma parse_lines_dom:
  "dom (picard_dupMetrics_data st) \<subseteq>
   dom (picard_dupMetrics_data (state_of (parse_lines pyfloat clean froot s_name lines st)))"
proof (rule parse_lines_rule [where I = "\<lambda>_ st'. dom (picard_dupMetrics_data st) \<subseteq>
    dom (picard_dupMetrics_data st')"])
  show "\<forall>l \<in> set lines. \<forall>s_name st'.
      dom (picard_dupMetrics_data st) \<subseteq> dom (picard_dupMetrics_data st') \<longrightarrow>
      dom (picard_dupMetrics_data st) \<subseteq>
      dom (picard_dupMetrics_data (snd (new_log clean froot l s_name st')))"
    using new_log_dom by blast
qed (simp_all add: fill_dom_Done fill_dom_Raised)

lemma parse_lines_frame:
  assumes "\<forall>l \<in> set lines. is_record_marker l \<longrightarrow> fn_search l \<noteq> None \<longrightarrow>
      sample_name clean froot l \<noteq> t"
    and "s_name \<noteq> Some t"
  shows "picard_dupMetrics_data (state_of (parse_lines pyfloat clean froot s_name lines st)) t =
    picard_dupMetrics_data st t"
proof (rule parse_lines_rule [where I = "\<lambda>s_name st'. s_name \<noteq> Some t \<and>
    picard_dupMetrics_data st' t = picard_dupMetrics_data st t"])
  show "s_name \<noteq> Some t \<and> picard_dupMetrics_data st t = picard_dupMetrics_data st t"
    using assms(2) by simp
  show "\<forall>l \<in> set lines. \<forall>s_name st'.
      s_name \<noteq> Some t \<and> picard_dupMetrics_data st' t = picard_dupMetrics_data st t \<longrightarrow>
      fst (new_log clean froot l s_name st') \<noteq> Some t \<and>
      picard_dupMetrics_data (snd (new_log clean froot l s_name st')) t =
      picard_dupMetrics_data st t"
  proof (intro ballI allI impI)
    fix l s_name' and st' :: "'a state"
    assume l: "l \<in> set lines"
      and I: "s_name' \<noteq> Some t \<and> picard_dupMetrics_data st' t = picard_dupMetrics_data st t"
    from assms(1) l have nm: "is_record_marker l \<longrightarrow> fn_search l \<noteq> None \<longrightarrow>
      sample_name clean froot l \<noteq> t" by blast
    show "fst (new_log clean froot l s_name' st') \<noteq> Some t \<and>
      picard_dupMetrics_data (snd (new_log clean froot l s_name' st')) t =
      picard_dupMetrics_data st t"
      using I by (simp add: new_log_frame [OF nm])
  qed
next
  fix s and st1 :: "'a state" and h v st'
  assume "Some s \<noteq> Some t \<and> picard_dupMetrics_data st1 t = picard_dupMetrics_data st t"
    and "fill pyfloat s (enumerate 0 (split_tab h)) (split_tab v) st1 = Done st'"
  then show "None \<noteq> Some t \<and> picard_dupMetrics_data st' t = picard_dupMetrics_data st t"
    using fill_frame_Done [of pyfloat s _ _ st1 st' t] by auto
next
  fix s and st1 :: "'a state" and h v e st'
  assume "Some s \<noteq> Some t \<and> picard_dupMetrics_data st1 t = picard_dupMetrics_data st t"
    and "fill pyfloat s (enumerate 0 (split_tab h)) (split_tab v) st1 = Raised e st'"
  then show "picard_dupMetrics_data (state_of (Raised e st')) t = picard_dupMetrics_data st t"
    using fill_frame_Raised [of pyfloat s _ _ st1 e st' t] by auto
qed simp_all




section \<open>Evaluation of the examples\<close>

text \<open>The definitions an example unfolds.\<close>

lemmas ex_defs = record_start_def is_record_marker_def is_metrics_header_def match_here_def
  split_tab_def sample_name_def basename_def keep_name_def coerced_def positional_zip_def
  decimal_float_def strip_def is_space_def unsigned_decimal_def digit_value_def fresh_def


section \<open>The claims about the reader\<close>

text \<open>
  C2, as the specification states it, fails: a record whose value row has fewer tokens
  than its header row matches the description of a well-formed record, and reading it
  raises \<^verbatim>\<open>IndexError\<close> instead of producing the zip. Here the header row has two
  tokens and the value row one.
\<close>

theorem single_record_short_row_counterexample:
  "record_start ''# picard.sam.MarkDuplicates INPUT=[/data/A.bam] OUTPUT=A.dedup.bam''
     (''## METRICS CLASS'' @ [CHR 0x09] @ ''picard.sam.DuplicationMetrics'') \<and>
   parse_picard_dupMetrics decimal_float keep_name
     (''logs'', [''# picard.sam.MarkDuplicates INPUT=[/data/A.bam] OUTPUT=A.dedup.bam'',
        ''## METRICS CLASS'' @ [CHR 0x09] @ ''picard.sam.DuplicationMetrics'',
        ''LIBRARY'' @ [CHR 0x09] @ ''PERCENT_DUPLICATION'',
        ''lib1'']) fresh =
   Raised IndexError (fresh\<lparr>picard_dupMetrics_data := [''A.bam'' \<mapsto> [''LIBRARY'' \<mapsto> Str ''lib1'']]\<rparr>)"
  by (simp add: parse_picard_dupMetrics_def new_log_def store_value_def list_index_def
      setitem_sample_def getitem_def enumerate_eq_zip Let_def ex_defs)

text \<open>
  C2, amended. For a file that consists of one record whose lines are each of one kind
  and whose value row has at least as many tokens as its header row, reading the file
  completes, and the entry of the sample is exactly the positional zip of the header
  tokens and the coerced value tokens. Nothing else changes but the log, which gets the
  duplicate notice when the sample had an entry before.
\<close>

theorem single_record_positional_zip:
  assumes "record_start l1 l2" and "length (split_tab h) \<le> length (split_tab v)"
  shows "parse_picard_dupMetrics pyfloat clean (froot, [l1, l2, h, v]) st =
    Done (st\<lparr>picard_dupMetrics_data := (picard_dupMetrics_data st)
          (sample_name clean froot l1 \<mapsto>
             positional_zip (split_tab h) (map (coerced pyfloat) (split_tab v))),
         log_messages := log_messages st @
          (if sample_name clean froot l1 \<in> dom (picard_dupMetrics_data st)
           then [Duplicate_sample_name (sample_name clean froot l1)] else [])\<rparr>)"
  unfolding parse_picard_dupMetrics_def fst_conv snd_conv
  by (subst parse_lines_record [OF assms]) simp

theorem single_record_positional_zip_witness:
  "parse_picard_dupMetrics decimal_float keep_name
     (''logs'', [''# picard.sam.MarkDuplicates INPUT=[/data/A.bam] OUTPUT=A.dedup.bam'',
        ''## METRICS CLASS'' @ [CHR 0x09] @ ''picard.sam.DuplicationMetrics'',
        ''LIBRARY'' @ [CHR 0x09] @ ''PERCENT_DUPLICATION'',
        ''lib1'' @ [CHR 0x09] @ ''0.25'']) fresh =
   Done (fresh\<lparr>picard_dupMetrics_data :=
     [''A.bam'' \<mapsto> [''LIBRARY'' \<mapsto> Str ''lib1'', ''PERCENT_DUPLICATION'' \<mapsto> Num (1 / 4)]]\<rparr>)"
  using single_record_positional_zip [of
     "''# picard.sam.MarkDuplicates INPUT=[/data/A.bam] OUTPUT=A.dedup.bam''"
     "''## METRICS CLASS'' @ [CHR 0x09] @ ''picard.sam.DuplicationMetrics''"
     "''LIBRARY'' @ [CHR 0x09] @ ''PERCENT_DUPLICATION''"
     "''lib1'' @ [CHR 0x09] @ ''0.25''" decimal_float keep_name "''logs''" fresh]
  by (simp add: ex_defs)

text \<open>
  C4. For a value token that exists (\<open>i\<close> is within the value row) and a sample whose
  entry exists, lines 82 to 85 complete without an exception and store the float when
  \<^verbatim>\<open>float\<close> accepts the token, the token itself, unchanged, when it does not.
\<close>

theorem store_value_coerces:
  assumes "i < length vals" and "picard_dupMetrics_data st s = Some m"
  shows "store_value pyfloat s k vals i st =
    Done (st\<lparr>picard_dupMetrics_data := (picard_dupMetrics_data st)
      (s \<mapsto> m(k \<mapsto> (case pyfloat (vals ! i) of Some x \<Rightarrow> Num x | None \<Rightarrow> Str (vals ! i))))\<rparr>)"
  using assms
  by (simp add: store_value_def list_index_def setitem_sample_def getitem_def split: option.splits)

theorem store_value_coerces_witness:
  "store_value decimal_float ''A'' ''PERCENT_DUPLICATION'' [''0.482'', ''abc''] 0
     (one_sample ''A'' Map.empty) =
     Done (one_sample ''A'' [''PERCENT_DUPLICATION'' \<mapsto> Num (482 / 1000)]) \<and>
   store_value decimal_float ''A'' ''LIBRARY'' [''0.482'', ''abc''] 1
     (one_sample ''A'' Map.empty) =
     Done (one_sample ''A'' [''LIBRARY'' \<mapsto> Str ''abc''])"
  using store_value_coerces [of 0 "[''0.482'', ''abc'']" "one_sample ''A'' Map.empty" "''A''"
      Map.empty decimal_float "''PERCENT_DUPLICATION''"]
    store_value_coerces [of 1 "[''0.482'', ''abc'']" "one_sample ''A'' Map.empty" "''A''"
      Map.empty decimal_float "''LIBRARY''"]
  by (simp add: one_sample_def ex_defs)

text \<open>
  C9. A record whose value row has fewer tab-separated tokens than its header row
  raises \<^verbatim>\<open>IndexError\<close> out of the loop over the lines, whatever the state and the
  pending name before it and whatever follows it. Read backwards: the reader completes
  on a record only if the value row is at least as long as the header row.
\<close>

theorem short_value_row_raises:
  assumes "record_start l1 l2" and "length (split_tab v) < length (split_tab h)"
  shows "\<exists>st'. parse_lines pyfloat clean froot s_name (l1 # l2 # h # v # rest) st =
    Raised IndexError st'"
proof -
  from assms(1) obtain g where g: "fn_search l1 = Some g"
    and l1: "is_record_marker l1" "\<not> is_metrics_header l1"
    and l2: "is_metrics_header l2" "\<not> is_record_marker l2"
    by (auto simp: record_start_def)
  obtain s st1 where n1: "new_log clean froot l1 s_name st = (Some s, st1)"
    and s: "s \<in> dom (picard_dupMetrics_data st1)"
    using new_log_marker [OF l1(1) g, of clean froot s_name st] by simp
  have "\<exists>st'. fill pyfloat s (enumerate 0 (split_tab h)) (split_tab v) st1 = Raised IndexError st'"
    using s _ _ by (rule fill_short) (use assms(2) in simp_all)
  then obtain st' where
    "fill pyfloat s (enumerate 0 (split_tab h)) (split_tab v) st1 = Raised IndexError st'" ..
  then have "parse_lines pyfloat clean froot (Some s) (l2 # h # v # rest) st1 = Raised IndexError st'"
    using l2 by (simp add: new_log_other)
  moreover have "parse_lines pyfloat clean froot s_name (l1 # l2 # h # v # rest) st =
    parse_lines pyfloat clean froot (Some s) (l2 # h # v # rest) st1"
    using n1 l1(2) by simp
  ultimately show ?thesis by simp
qed

theorem short_value_row_raises_witness:
  "\<exists>st'. parse_lines decimal_float keep_name ''logs'' None
     [''picard.sam.MarkDuplicates INPUT=[A]'', ''## METRICS CLASS picard.sam.DuplicationMetrics'',
      ''X'' @ [CHR 0x09] @ ''Y'', ''1''] fresh = Raised IndexError st'"
  using short_value_row_raises [of "''picard.sam.MarkDuplicates INPUT=[A]''"
      "''## METRICS CLASS picard.sam.DuplicationMetrics''" "''1''" "''X'' @ [CHR 0x09] @ ''Y''"
      decimal_float keep_name "''logs''" None "[]" fresh]
  by (simp add: ex_defs)

text \<open>
  C5. The dictionary has one entry per sample name by construction. When a record
  resolves to a name that has an entry already, whatever an earlier record of this or
  another file left there, reading the record completes without an exception, the entry
  becomes exactly the zip of this record (no field of the old entry survives) and the
  collision shows only as a duplicate notice in the log; and the entry is still that zip
  at the end of the file when no later record-marker line resolves to the same name.
\<close>

theorem duplicate_sample_last_wins:
  assumes "record_start l1 l2" and "length (split_tab h) \<le> length (split_tab v)"
    and "picard_dupMetrics_data st (sample_name clean froot l1) = Some old"
    and "\<forall>l \<in> set rest. is_record_marker l \<longrightarrow> fn_search l \<noteq> None \<longrightarrow>
      sample_name clean froot l \<noteq> sample_name clean froot l1"
  shows "parse_lines pyfloat clean froot s_name (l1 # l2 # h # v # rest) st =
      parse_lines pyfloat clean froot None rest
        (st\<lparr>picard_dupMetrics_data := (picard_dupMetrics_data st)
            (sample_name clean froot l1 \<mapsto>
               positional_zip (split_tab h) (map (coerced pyfloat) (split_tab v))),
           log_messages := log_messages st @
             [Duplicate_sample_name (sample_name clean froot l1)]\<rparr>) \<and>
    picard_dupMetrics_data
      (state_of (parse_lines pyfloat clean froot s_name (l1 # l2 # h # v # rest) st))
      (sample_name clean froot l1) =
    Some (positional_zip (split_tab h) (map (coerced pyfloat) (split_tab v)))"
proof -
  let ?s = "sample_name clean froot l1"
  let ?st2 = "st\<lparr>picard_dupMetrics_data := (picard_dupMetrics_data st)
      (?s \<mapsto> positional_zip (split_tab h) (map (coerced pyfloat) (split_tab v))),
    log_messages := log_messages st @ [Duplicate_sample_name ?s]\<rparr>"
  from assms(3) have "?s \<in> dom (picard_dupMetrics_data st)" by auto
  then have step: "parse_lines pyfloat clean froot s_name (l1 # l2 # h # v # rest) st =
      parse_lines pyfloat clean froot None rest ?st2"
    by (simp only: parse_lines_record [OF assms(1,2)] if_True)
  have "picard_dupMetrics_data (state_of (parse_lines pyfloat clean froot None rest ?st2)) ?s =
      picard_dupMetrics_data ?st2 ?s"
    using assms(4) by (intro parse_lines_frame) simp_all
  with step show ?thesis by simp
qed

theorem duplicate_sample_last_wins_witness:
  "parse_lines decimal_float keep_name ''logs'' None
     [''picard.sam.MarkDuplicates INPUT=[A]'',
      ''## METRICS CLASS picard.sam.DuplicationMetrics'', ''X'', ''3'', ''end of the log'']
     (one_sample ''A'' [''X'' \<mapsto> Num 1, ''Y'' \<mapsto> Num 2]) =
   Done (one_sample ''A'' [''X'' \<mapsto> Num 3]\<lparr>log_messages := [Duplicate_sample_name ''A'']\<rparr>) \<and>
   parse_picard_dupMetrics decimal_float keep_name
     (''logs'', [''picard.sam.MarkDuplicates INPUT=[A]'',
        ''## METRICS CLASS picard.sam.DuplicationMetrics'', ''X'' @ [CHR 0x09] @ ''Y'',
        ''1'' @ [CHR 0x09] @ ''2'', ''picard.sam.MarkDuplicates INPUT=[A]'',
        ''## METRICS CLASS picard.sam.DuplicationMetrics'', ''X'', ''3'']) fresh =
   Done (fresh\<lparr>picard_dupMetrics_data := [''A'' \<mapsto> [''X'' \<mapsto> Num 3]],
     log_messages := [Duplicate_sample_name ''A'']\<rparr>)"
  using duplicate_sample_last_wins [of "''picard.sam.MarkDuplicates INPUT=[A]''"
      "''## METRICS CLASS picard.sam.DuplicationMetrics''" "''X''" "''3''"
      "one_sample ''A'' [''X'' \<mapsto> Num 1, ''Y'' \<mapsto> Num 2]" keep_name "''logs''"
      "[''X'' \<mapsto> Num 1, ''Y'' \<mapsto> Num 2]" "[''end of the log'']" decimal_float None]
  by (simp add: one_sample_def parse_picard_dupMetrics_def new_log_def store_value_def
      list_index_def setitem_sample_def getitem_def enumerate_eq_zip Let_def ex_defs)


section \<open>Properties of the derivation when a field is missing\<close>


lemma assign_difference_error:
  "error_of (assign_difference sn tgt a b st) \<in> {None, Some KeyError, Some TypeError}"
proof -
  have "py_sub x y = Inl e \<Longrightarrow> e = TypeError" for x y :: "'a pyval" and e
    by (cases "(x, y)" rule: py_sub.cases) auto
  then show ?thesis
    by (auto simp: assign_difference_def getitem_def split: option.splits sum.splits)
qed



lemma derive_sample_error:
  "error_of (derive_sample sn st) \<in> {None, Some KeyError, Some TypeError}"
proof -
  have *: "error_of (and_then r k) \<in> {None, Some KeyError, Some TypeError}"
    if "error_of r \<in> {None, Some KeyError, Some TypeError}"
      and "\<And>s. error_of (k s) \<in> {None, Some KeyError, Some TypeError}"
    for r :: "'a state result" and k
    using that by (cases r) auto
  show ?thesis
    unfolding derive_sample_def
    by (intro * assign_difference_error)
qed

lemma py_sub_case:
  "py_sub x y = (case x of Str _ \<Rightarrow> Inl TypeError
     | Num a \<Rightarrow> (case y of Str _ \<Rightarrow> Inl TypeError | Num b \<Rightarrow> Inr (Num (a - b))))"
  by (cases x; cases y) simp_all

lemma derive_sample_fails:
  assumes "picard_dupMetrics_data st sn = Some m"
    and "f \<in> set source_fields" and "m f = None"
  shows "error_of (derive_sample sn st) \<noteq> None"
    and "(\<forall>k \<in> set source_fields. \<forall>s. m k \<noteq> Some (Str s)) \<longrightarrow>
      error_of (derive_sample sn st) = Some KeyError"
  using assms
  by (auto simp: derive_sample_def assign_difference_def getitem_def source_fields_def py_sub_case
      split: option.splits pyval.splits)


text \<open>
  C7, as the specification states it, fails: the sample below lacks
  \<open>READ_PAIR_DUPLICATES\<close>, yet its derivation raises \<^verbatim>\<open>TypeError\<close>, not a lookup
  failure, because line 104 subtracts from a string before line 105 looks the missing
  field up.
\<close>

theorem derive_sample_type_error_counterexample:
  "''READ_PAIR_DUPLICATES'' \<in> set source_fields \<and>
   [''UNPAIRED_READS_EXAMINED'' \<mapsto> Str ''x'', ''UNPAIRED_READ_DUPLICATES'' \<mapsto> Num (1::rat)]
     ''READ_PAIR_DUPLICATES'' = None \<and>
   derive_sample ''A'' (one_sample ''A''
     [''UNPAIRED_READS_EXAMINED'' \<mapsto> Str ''x'', ''UNPAIRED_READ_DUPLICATES'' \<mapsto> Num (1::rat)]) =
   Raised TypeError (one_sample ''A''
     [''UNPAIRED_READS_EXAMINED'' \<mapsto> Str ''x'', ''UNPAIRED_READ_DUPLICATES'' \<mapsto> Num 1])"
  by (simp add: derive_sample_def assign_difference_def getitem_def one_sample_def
      source_fields_def)

text \<open>
  C7, amended. When a sample lacks one of the five source fields, its derivation never
  completes (no value stands in for the missing field): it raises \<^verbatim>\<open>KeyError\<close> or
  \<^verbatim>\<open>TypeError\<close>, and it raises \<^verbatim>\<open>KeyError\<close> whenever none of the source fields
  the sample has is a string.
\<close>

theorem derive_sample_missing_field:
  assumes "picard_dupMetrics_data st sn = Some m"
    and "f \<in> set source_fields" and "m f = None"
  shows "\<exists>e st'. derive_sample sn st = Raised e st' \<and> (e = KeyError \<or> e = TypeError) \<and>
    ((\<forall>k \<in> set source_fields. \<forall>s. m k \<noteq> Some (Str s)) \<longrightarrow> e = KeyError)"
proof (cases "derive_sample sn st")
  case (Done st')
  with derive_sample_fails(1) [OF assms] show ?thesis by simp
next
  case (Raised e st')
  with derive_sample_fails(2) [OF assms] derive_sample_error [of sn st]
  show ?thesis by auto
qed

theorem derive_sample_missing_field_witness:
  "derive_sample ''A'' (one_sample ''A''
     [''UNPAIRED_READS_EXAMINED'' \<mapsto> Num (100::rat), ''UNPAIRED_READ_DUPLICATES'' \<mapsto> Num 10]) =
   Raised KeyError (one_sample ''A''
     [''UNPAIRED_READS_EXAMINED'' \<mapsto> Num 100, ''UNPAIRED_READ_DUPLICATES'' \<mapsto> Num 10,
      ''UNPAIRED_READ_UNIQUE'' \<mapsto> Num 90])"
  using derive_sample_missing_field [of "one_sample ''A''
     [''UNPAIRED_READS_EXAMINED'' \<mapsto> Num (100::rat), ''UNPAIRED_READ_DUPLICATES'' \<mapsto> Num 10]"
     "''A''" "[''UNPAIRED_READS_EXAMINED'' \<mapsto> Num (100::rat),
       ''UNPAIRED_READ_DUPLICATES'' \<mapsto> Num 10]" "''READ_PAIR_DUPLICATES''"]
  by (simp add: derive_sample_def assign_difference_def getitem_def one_sample_def
      source_fields_def)





section \<open>Properties of the general statistics column\<close>











section \<open>When an entry is created\<close>

text \<open>
  C3, as the specification states it, fails: line 75 creates the entry, empty, as soon
  as a record-marker line with a matching \<^verbatim>\<open>INPUT=[...]\<close> is read. The file below has
  no header row and no value row at all, and its sample has an entry.
\<close>

theorem entry_at_marker_line_counterexample:
  "parse_picard_dupMetrics decimal_float keep_name
     (''logs'', [''picard.sam.MarkDuplicates INPUT=[A]'']) fresh =
   Done (fresh\<lparr>picard_dupMetrics_data := [''A'' \<mapsto> Map.empty]\<rparr>)"
  by (simp add: parse_picard_dupMetrics_def new_log_def Let_def ex_defs)

lemma new_log_creates:
  assumes "is_record_marker l" and "fn_search l \<noteq> None"
  shows "fst (new_log clean froot l s_name st) = Some (sample_name clean froot l)"
    and "picard_dupMetrics_data (snd (new_log clean froot l s_name st))
      (sample_name clean froot l) = Some Map.empty"
  using assms by (auto simp: new_log_def Let_def sample_name_def)

lemma parse_lines_head_entry:
  assumes "is_record_marker l" and "fn_search l \<noteq> None"
  shows "sample_name clean froot l \<in>
    dom (picard_dupMetrics_data (state_of (parse_lines pyfloat clean froot s_name (l # rest) st)))"
proof -
  let ?s = "sample_name clean froot l"
  let ?st1 = "snd (new_log clean froot l s_name st)"
  have s1: "fst (new_log clean froot l s_name st) = Some ?s"
    and in1: "?s \<in> dom (picard_dupMetrics_data ?st1)"
    using new_log_creates [OF assms, of clean froot s_name st] by auto
  show ?thesis
  proof (cases "is_metrics_header l")
    case False
    with s1 have "parse_lines pyfloat clean froot s_name (l # rest) st =
      parse_lines pyfloat clean froot (Some ?s) rest ?st1" by simp
    with in1 parse_lines_dom [of ?st1 pyfloat clean froot "Some ?s" rest]
    show ?thesis by auto
  next
    case True
    show ?thesis
    proof (cases "\<exists>h v rest'. rest = h # v # rest'")
      case False
      then have "parse_lines pyfloat clean froot s_name (l # rest) st = Raised StopIteration ?st1"
        using s1 True by (auto split: list.splits)
      with in1 show ?thesis by simp
    next
      case ex: True
      then obtain h v rest' where rest: "rest = h # v # rest'" by blast
      let ?fill = "fill pyfloat ?s (enumerate 0 (split_tab h)) (split_tab v) ?st1"
      have pl: "parse_lines pyfloat clean froot s_name (l # rest) st =
        and_then ?fill (parse_lines pyfloat clean froot None rest')"
        using s1 True rest by simp
      show ?thesis
      proof (cases ?fill)
        case (Raised e st')
        with fill_dom_Raised [OF Raised] in1 pl show ?thesis by simp
      next
        case (Done st')
        with fill_dom_Done [OF Done] in1 pl
          parse_lines_dom [of st' pyfloat clean froot None rest']
        show ?thesis by auto
      qed
    qed
  qed
qed

text \<open>
  C3, amended. Reading a file never deletes an entry; it creates or replaces entries
  only for the sample names of the file's record-marker lines with a matching
  \<^verbatim>\<open>INPUT=[...]\<close>, every other name keeping what it had; and such a line creates the
  entry of its sample, empty, at the moment it is read, so that the entry exists
  whatever follows the line.
\<close>

theorem entries_created_at_marker_lines:
  "dom (picard_dupMetrics_data st) \<subseteq>
     dom (picard_dupMetrics_data (state_of (parse_picard_dupMetrics pyfloat clean (froot, lines) st))) \<and>
   ((\<forall>l \<in> set lines. is_record_marker l \<longrightarrow> fn_search l \<noteq> None \<longrightarrow>
        sample_name clean froot l \<noteq> t) \<longrightarrow>
     picard_dupMetrics_data (state_of (parse_picard_dupMetrics pyfloat clean (froot, lines) st)) t =
     picard_dupMetrics_data st t) \<and>
   (is_record_marker l \<longrightarrow> fn_search l \<noteq> None \<longrightarrow>
     picard_dupMetrics_data (snd (new_log clean froot l s_name st)) (sample_name clean froot l) =
       Some Map.empty \<and>
     sample_name clean froot l \<in> dom (picard_dupMetrics_data
       (state_of (parse_picard_dupMetrics pyfloat clean (froot, l # rest) st))))"
  unfolding parse_picard_dupMetrics_def fst_conv snd_conv
  using parse_lines_dom [of st pyfloat clean froot None lines]
    parse_lines_frame [of lines clean froot t None pyfloat st]
    new_log_creates(2) [of l clean froot s_name st]
    parse_lines_head_entry [of l clean froot pyfloat None rest st]
  by blast

theorem entries_created_at_marker_lines_witness:
  "picard_dupMetrics_data (state_of (parse_picard_dupMetrics decimal_float keep_name
      (''logs'', [''picard.sam.MarkDuplicates INPUT=[A]'', ''no metrics follow''])
      (one_sample ''B'' Map.empty))) ''B'' = Some Map.empty \<and>
   picard_dupMetrics_data (snd (new_log keep_name ''logs''
      ''picard.sam.MarkDuplicates INPUT=[A]'' None (one_sample ''B'' (Map.empty :: rat metrics)))) ''A'' =
      Some Map.empty \<and>
   ''A'' \<in> dom (picard_dupMetrics_data (state_of (parse_picard_dupMetrics decimal_float keep_name
      (''logs'', [''picard.sam.MarkDuplicates INPUT=[A]'', ''no metrics follow''])
      (one_sample ''B'' Map.empty))))"
  using entries_created_at_marker_lines [of "one_sample ''B'' (Map.empty :: rat metrics)"
      decimal_float keep_name "''logs''"
      "[''picard.sam.MarkDuplicates INPUT=[A]'', ''no metrics follow'']" "''B''"
      "''picard.sam.MarkDuplicates INPUT=[A]''" None "[''no metrics follow'']"]
  by (simp add: one_sample_def parse_picard_dupMetrics_def new_log_def Let_def ex_defs)


section \<open>The constructor and the report-absence signal\<close>






end
